theory Spec2Isabelle
  imports Main
begin

section \<open>Keyboard navigation between containers of focusable elements\<close>

text \<open>
  A shallow embedding of \<^verbatim>\<open>src/useKeyboardNavigation.ts\<close>. DOM nodes are opaque
  handles compared by identity; what the code reads from the host (the focused element, the
  class string of a node, the result of a selector query) is a record of functions, and what
  it does to the host (\<^verbatim>\<open>focus()\<close>, \<^verbatim>\<open>click()\<close>,
  \<^verbatim>\<open>preventDefault()\<close>, the state setter of the container index) is recorded in
  an explicit state that every function takes and returns.
\<close>

subsection \<open>Data\<close>

text \<open>A DOM node: a handle, compared by identity (\<^verbatim>\<open>===\<close>).\<close>

type_synonym element = nat

text \<open>The exceptions the host can raise in this module.\<close>

datatype js_error = TypeError | SyntaxError

text \<open>
  \<^verbatim>\<open>AllowedSelectors | AllowedSelectors[]\<close>: one selector string, or an array of them.
\<close>

datatype selectorSet = Single string | Many "string list"

text \<open>
  \<^verbatim>\<open>boolean | { [index: number]: boolean }\<close>: one flag, or an object indexed by
  container index (a missing entry reads \<^verbatim>\<open>undefined\<close>).
\<close>

datatype autoSelectPolicy = AutoSelectBool bool | AutoSelectMap "int \<rightharpoonup> bool"

text \<open>\<^verbatim>\<open>interface Options\<close>; every field is optional (\<open>None\<close> is \<^verbatim>\<open>undefined\<close>).\<close>

record options =
  selectors :: "selectorSet option"
  autoSelect :: "autoSelectPolicy option"
  tabKeyContainerLevel :: "bool option"
  selectedClassName :: "string option"

text \<open>The two fields of a \<^verbatim>\<open>KeyboardEvent\<close> that the code reads.\<close>

record keyboardEvent =
  key :: string
  shiftKey :: bool

text \<open>
  What the code reads from the host: \<^verbatim>\<open>document.activeElement\<close> (\<open>None\<close> is
  \<^verbatim>\<open>null\<close>), \<^verbatim>\<open>element.className\<close>, and
  \<^verbatim>\<open>container.querySelectorAll(selectors)\<close>, which returns the matching nodes in
  document order or throws on a selector it cannot parse.
\<close>

record document =
  activeElement :: "element option"
  className :: "element \<Rightarrow> string"
  querySelectorAll :: "element \<Rightarrow> string \<Rightarrow> js_error + element list"

text \<open>
  What the code does to the host. \<open>containerIndexState\<close> is the React state cell behind
  \<^verbatim>\<open>setContainerIndex\<close>; \<open>focusCalls\<close> and \<open>clickCalls\<close> list the nodes on which
  \<^verbatim>\<open>focus()\<close> and \<^verbatim>\<open>click()\<close> were called, oldest first;
  \<open>preventDefaultCalls\<close> counts the calls of \<^verbatim>\<open>event.preventDefault()\<close>.
\<close>

record navState =
  containerIndexState :: int
  focusCalls :: "element list"
  clickCalls :: "element list"
  preventDefaultCalls :: nat

subsection \<open>JavaScript primitives used by the module\<close>

text \<open>
  \<^verbatim>\<open>xs[i]\<close> on an array or a \<^verbatim>\<open>NodeList\<close>: \<^verbatim>\<open>undefined\<close> (here \<open>None\<close>)
  when \<open>i\<close> is negative or past the end.
\<close>

definition at_index :: "'a list \<Rightarrow> int \<Rightarrow> 'a option" where
  "at_index xs i = (if 0 \<le> i \<and> i < int (length xs) then Some (xs ! nat i) else None)"

text \<open>
  \<^verbatim>\<open>containers[i]\<close> on the \<^verbatim>\<open>Element[]\<close> of containers, whose entries may be
  \<^verbatim>\<open>null\<close> (\<^verbatim>\<open>parseContainer\<close> returns what \<^verbatim>\<open>getElementById\<close> or
  \<^verbatim>\<open>ref.current\<close> gives): a missing and a null entry are both falsy and both have no
  \<^verbatim>\<open>querySelectorAll\<close>.
\<close>

definition container_at :: "element option list \<Rightarrow> int \<Rightarrow> element option" where
  "container_at containers i = (case at_index containers i of None \<Rightarrow> None | Some c \<Rightarrow> c)"

text \<open>\<^verbatim>\<open>Array.prototype.findIndex\<close>: the first index whose entry satisfies \<open>p\<close>, else \<open>-1\<close>.\<close>

fun findIndexFrom :: "('a \<Rightarrow> bool) \<Rightarrow> 'a list \<Rightarrow> int \<Rightarrow> int" where
  "findIndexFrom p [] k = - 1"
| "findIndexFrom p (x # xs) k = (if p x then k else findIndexFrom p xs (k + 1))"

definition findIndex :: "('a \<Rightarrow> bool) \<Rightarrow> 'a list \<Rightarrow> int" where
  "findIndex p xs = findIndexFrom p xs 0"

text \<open>\<^verbatim>\<open>String.prototype.startsWith\<close> and \<^verbatim>\<open>String.prototype.includes\<close>.\<close>

fun startsWith :: "string \<Rightarrow> string \<Rightarrow> bool" where
  "startsWith s [] = True"
| "startsWith [] (c # cs) = False"
| "startsWith (d # ds) (c # cs) = (d = c \<and> startsWith ds cs)"

fun str_includes :: "string \<Rightarrow> string \<Rightarrow> bool" where
  "str_includes [] t = (t = [])"
| "str_includes (c # cs) t = (startsWith (c # cs) t \<or> str_includes cs t)"

text \<open>\<^verbatim>\<open>Array.prototype.join\<close> on an array of strings.\<close>

fun join :: "string list \<Rightarrow> string \<Rightarrow> string" where
  "join [] sep = []"
| "join [x] sep = x"
| "join (x # y # ys) sep = x @ sep @ join (y # ys) sep"

subsection \<open>The module\<close>

definition SELECTED_CLASSNAME :: string where
  "SELECTED_CLASSNAME = ''selected''"

definition allSelectors :: "string list" where
  "allSelectors =
     [''a'', ''button'', ''[href]'', ''input'', ''select'', ''textarea'',
      ''[tabindex]:not([tabindex=\"-1\"])'']"

definition parseSelectors :: "selectorSet \<Rightarrow> string" where
  "parseSelectors unParsedSelectors =
     (case unParsedSelectors of
        Many xs \<Rightarrow> join xs '',''
      | Single x \<Rightarrow> x)"

definition getFocusableElements ::
  "document \<Rightarrow> element \<Rightarrow> string \<Rightarrow> js_error + element list" where
  "getFocusableElements doc container sels = querySelectorAll doc container sels"

text \<open>
  The arrow function of lines 63 and 64:
  \<^verbatim>\<open>element.className.includes(selectedClassName ?? SELECTED_CLASSNAME)\<close>.
\<close>

definition is_selected :: "document \<Rightarrow> string option \<Rightarrow> element \<Rightarrow> bool" where
  "is_selected doc selClassName el =
     str_includes (className doc el)
       (case selClassName of None \<Rightarrow> SELECTED_CLASSNAME | Some n \<Rightarrow> n)"

text \<open>
  \<^verbatim>\<open>elemArray.find(...)\<close>, then \<^verbatim>\<open>elements[0]\<close> when nothing was found.
\<close>

definition checkForPreviouslyFocusedElement ::
  "document \<Rightarrow> element list \<Rightarrow> string option \<Rightarrow> element option" where
  "checkForPreviouslyFocusedElement doc elements selClassName =
     (let elementToSelect = find (is_selected doc selClassName) elements
      in case elementToSelect of
           None \<Rightarrow> at_index elements 0
         | Some el \<Rightarrow> Some el)"

text \<open>
  The tests of \<^verbatim>\<open>focusElement\<close> on its \<^verbatim>\<open>autoSelect\<close> argument: truthiness
  (an object is truthy, \<^verbatim>\<open>undefined\<close> and \<^verbatim>\<open>false\<close> are not), the two
  \<^verbatim>\<open>typeof\<close> tests, and the truthiness of \<^verbatim>\<open>autoSelect[containerIndex]\<close>.
\<close>

fun truthy_autoSelect :: "autoSelectPolicy option \<Rightarrow> bool" where
  "truthy_autoSelect None = False"
| "truthy_autoSelect (Some (AutoSelectBool b)) = b"
| "truthy_autoSelect (Some (AutoSelectMap m)) = True"

fun typeof_boolean :: "autoSelectPolicy option \<Rightarrow> bool" where
  "typeof_boolean (Some (AutoSelectBool b)) = True"
| "typeof_boolean _ = False"

fun typeof_object :: "autoSelectPolicy option \<Rightarrow> bool" where
  "typeof_object (Some (AutoSelectMap m)) = True"
| "typeof_object _ = False"

fun autoSelect_at :: "autoSelectPolicy option \<Rightarrow> int \<Rightarrow> bool" where
  "autoSelect_at (Some (AutoSelectMap m)) i = (m i = Some True)"
| "autoSelect_at _ i = False"

definition focusElement ::
  "element option \<Rightarrow> keyboardEvent \<Rightarrow> int \<Rightarrow> autoSelectPolicy option \<Rightarrow> navState \<Rightarrow> navState"
  where
  "focusElement el event containerIndex autoSel s =
     (case el of
        None \<Rightarrow> s
      | Some e \<Rightarrow>
          (let s1 = s\<lparr>focusCalls := focusCalls s @ [e]\<rparr>;
               select0 = False;
               select1 = (if truthy_autoSelect autoSel \<and> typeof_boolean autoSel
                          then True else select0);
               select2 = (if truthy_autoSelect autoSel \<and> typeof_object autoSel
                             \<and> autoSelect_at autoSel containerIndex
                          then True else select1);
               s2 = (if select2 then s1\<lparr>clickCalls := clickCalls s1 @ [e]\<rparr> else s1)
           in s2\<lparr>preventDefaultCalls := preventDefaultCalls s2 + 1\<rparr>))"

text \<open>
  Lines 131 to 139 of \<^verbatim>\<open>moveToContainer\<close>, reached from both of its queries: select an
  element and, if there is one, call \<^verbatim>\<open>preventDefault\<close>, apply the updater
  \<^verbatim>\<open>prev => forwardDirection ? prev + 1 : prev - 1\<close> to the state cell, and focus.
\<close>

definition moveToContainer_select ::
  "document \<Rightarrow> element list \<Rightarrow> bool \<Rightarrow> keyboardEvent \<Rightarrow> string option \<Rightarrow> navState \<Rightarrow> navState"
  where
  "moveToContainer_select doc containerElements forwardDirection event selClassName s =
     (case checkForPreviouslyFocusedElement doc containerElements selClassName of
        None \<Rightarrow> s
      | Some elementToSelect \<Rightarrow>
          (let s1 = s\<lparr>preventDefaultCalls := preventDefaultCalls s + 1\<rparr>;
               s2 = s1\<lparr>containerIndexState :=
                         (if forwardDirection then containerIndexState s1 + 1
                          else containerIndexState s1 - 1)\<rparr>
           in s2\<lparr>focusCalls := focusCalls s2 @ [elementToSelect]\<rparr>))"

text \<open>
  The result is the exception thrown, if any, and the state when the call ends. An absent
  \<^verbatim>\<open>selectors\<close> argument reaches \<^verbatim>\<open>querySelectorAll\<close> as the string
  \<^verbatim>\<open>undefined\<close>.
\<close>

definition moveToContainer ::
  "document \<Rightarrow> element option \<Rightarrow> bool \<Rightarrow> keyboardEvent \<Rightarrow> string option \<Rightarrow> string option
     \<Rightarrow> navState \<Rightarrow> js_error option \<times> navState" where
  "moveToContainer doc container forwardDirection event sels selClassName s =
     (case container of
        None \<Rightarrow> (None, s)
      | Some c \<Rightarrow>
          (case getFocusableElements doc c
                  (case sels of None \<Rightarrow> ''undefined'' | Some x \<Rightarrow> x) of
             Inl err \<Rightarrow> (Some err, s)
           | Inr containerElements \<Rightarrow>
               if length containerElements = 0 then
                 (case getFocusableElements doc c (parseSelectors (Many allSelectors)) of
                    Inl err \<Rightarrow> (Some err, s)
                  | Inr containerElements' \<Rightarrow>
                      if length containerElements' = 0 then (None, s)
                      else (None, moveToContainer_select doc containerElements'
                                    forwardDirection event selClassName s))
               else (None, moveToContainer_select doc containerElements
                             forwardDirection event selClassName s)))"

definition handleSwitchContainer ::
  "document \<Rightarrow> keyboardEvent \<Rightarrow> element option list \<Rightarrow> int \<Rightarrow> string \<Rightarrow> string option
     \<Rightarrow> navState \<Rightarrow> js_error option \<times> navState" where
  "handleSwitchContainer doc event containers containerIndex sels selClassName s =
     (if (key event = ''Tab'' \<and> shiftKey event) \<or> key event = ''ArrowLeft'' then
        (let prevContainerElement =
               (if containerIndex > 0 then container_at containers (containerIndex - 1)
                else None)
         in moveToContainer doc prevContainerElement False event (Some sels) selClassName s)
      else if key event \<in> set [''Tab'', ''ArrowRight''] then
        (let nextContainerElement =
               (if containerIndex < int (length containers) - 1
                then container_at containers (containerIndex + 1)
                else None)
         in moveToContainer doc nextContainerElement True event (Some sels) selClassName s)
      else (None, s))"

definition handleUpDown ::
  "keyboardEvent \<Rightarrow> element option \<Rightarrow> element list \<Rightarrow> int \<Rightarrow> autoSelectPolicy option
     \<Rightarrow> navState \<Rightarrow> navState" where
  "handleUpDown event activeEl elements containerIndex autoSel s =
     (let currentIndex = findIndex (\<lambda>availableElement. Some availableElement = activeEl) elements;
          nextElement0 = None;
          nextElement1 = (if key event = ''ArrowDown'' then at_index elements (currentIndex + 1)
                          else nextElement0);
          nextElement2 = (if key event = ''ArrowUp'' then at_index elements (currentIndex - 1)
                          else nextElement1)
      in focusElement nextElement2 event containerIndex autoSel s)"

text \<open>
  \<^verbatim>\<open>selectors ? selectors : allSelectors\<close>: \<^verbatim>\<open>undefined\<close> and the empty string
  are falsy, every array is truthy.
\<close>

fun truthy_selectors :: "selectorSet option \<Rightarrow> bool" where
  "truthy_selectors None = False"
| "truthy_selectors (Some (Single x)) = (x \<noteq> [])"
| "truthy_selectors (Some (Many xs)) = True"

text \<open>
  \<^verbatim>\<open>options ?? { selectors: undefined, ... }\<close>, one destructured field at a time.
\<close>

definition option_field :: "options option \<Rightarrow> (options \<Rightarrow> 'a option) \<Rightarrow> 'a option" where
  "option_field opts f = (case opts of None \<Rightarrow> None | Some o' \<Rightarrow> f o')"

text \<open>
  Line 231, \<^verbatim>\<open>parseSelectors(selectors ? selectors : allSelectors)\<close>, on the
  \<^verbatim>\<open>selectors\<close> field destructured at line 222.
\<close>

definition resolveSelectors :: "options option \<Rightarrow> string" where
  "resolveSelectors opts =
     (let sels = option_field opts selectors
      in parseSelectors
           (if truthy_selectors sels
            then (case sels of Some x \<Rightarrow> x | None \<Rightarrow> Many allSelectors)
            else Many allSelectors))"

text \<open>
  \<^verbatim>\<open>container.querySelectorAll\<close> on a container that is \<^verbatim>\<open>null\<close> or
  \<^verbatim>\<open>undefined\<close> throws a \<^verbatim>\<open>TypeError\<close>.
\<close>

definition handleEvents ::
  "document \<Rightarrow> keyboardEvent \<Rightarrow> element option list \<Rightarrow> int \<Rightarrow> options option
     \<Rightarrow> navState \<Rightarrow> js_error option \<times> navState" where
  "handleEvents doc event containers containerIndex opts s =
     (if length containers = 0 then (None, s)
      else
        (let activeEl = activeElement doc;
             container = container_at containers containerIndex;
             k = key event
         in if k \<notin> set [''ArrowUp'', ''ArrowDown'', ''Tab'', ''ArrowLeft'', ''ArrowRight'']
            then (None, s)
            else
              (let autoSel = option_field opts autoSelect;
                   tabLevel = option_field opts tabKeyContainerLevel;
                   selClassName = option_field opts selectedClassName;
                   parsedSelectors = resolveSelectors opts
               in case container of
                    None \<Rightarrow> (Some TypeError, s)
                  | Some c \<Rightarrow>
                      (case querySelectorAll doc c parsedSelectors of
                         Inl err \<Rightarrow> (Some err, s)
                       | Inr elements \<Rightarrow>
                           if length containers > 1 then
                             (if (k = ''Tab'' \<and> tabLevel = Some True)
                                  \<or> k \<in> set [''ArrowLeft'', ''ArrowRight'']
                              then handleSwitchContainer doc event containers containerIndex
                                     parsedSelectors selClassName s
                              else (None, handleUpDown event activeEl elements containerIndex
                                            autoSel s))
                           else (None, handleUpDown event activeEl elements containerIndex
                                         autoSel s)))))"


subsection \<open>Vocabulary of the properties\<close>

text \<open>
  Names for conditions that the code writes inline: the test of line 150 (a key of the
  ``previous'' class), the test of line 162 once line 150 has failed (``next'' class), the
  routing test of lines 236 and 237, the candidate container computed at lines 153 and 165
  to 167, and the neighbour computed at lines 188 to 197.
\<close>

abbreviation previousKey :: "keyboardEvent \<Rightarrow> bool" where
  "previousKey ev \<equiv> (key ev = ''Tab'' \<and> shiftKey ev) \<or> key ev = ''ArrowLeft''"

abbreviation nextKey :: "keyboardEvent \<Rightarrow> bool" where
  "nextKey ev \<equiv> \<not> previousKey ev \<and> key ev \<in> set [''Tab'', ''ArrowRight'']"

abbreviation switchKey :: "keyboardEvent \<Rightarrow> options option \<Rightarrow> bool" where
  "switchKey ev opts \<equiv>
     (key ev = ''Tab'' \<and> option_field opts tabKeyContainerLevel = Some True)
     \<or> key ev \<in> set [''ArrowLeft'', ''ArrowRight'']"

abbreviation candidate :: "keyboardEvent \<Rightarrow> element option list \<Rightarrow> int \<Rightarrow> element option" where
  "candidate ev cs ci \<equiv>
     (if previousKey ev then (if ci > 0 then container_at cs (ci - 1) else None)
      else if key ev \<in> set [''Tab'', ''ArrowRight'']
           then (if ci < int (length cs) - 1 then container_at cs (ci + 1) else None)
           else None)"

abbreviation neighbour :: "keyboardEvent \<Rightarrow> element option \<Rightarrow> element list \<Rightarrow> element option" where
  "neighbour ev act els \<equiv>
     (if key ev = ''ArrowUp'' then at_index els (findIndex (\<lambda>a. Some a = act) els - 1)
      else if key ev = ''ArrowDown'' then at_index els (findIndex (\<lambda>a. Some a = act) els + 1)
      else None)"

text \<open>
  What a container gives to \<^verbatim>\<open>moveToContainer\<close>: the result of the query with the
  resolved expression or, when that is empty, of the query with every known kind.
\<close>

abbreviation yields :: "document \<Rightarrow> element \<Rightarrow> string \<Rightarrow> element list \<Rightarrow> bool" where
  "yields doc c sel els \<equiv>
     querySelectorAll doc c sel = Inr els
     \<or> (querySelectorAll doc c sel = Inr []
          \<and> querySelectorAll doc c (parseSelectors (Many allSelectors)) = Inr els)"

text \<open>The state after a switch that focused \<open>e\<close>: lines 136 to 138.\<close>

abbreviation switched :: "navState \<Rightarrow> bool \<Rightarrow> element \<Rightarrow> navState" where
  "switched s fwd e \<equiv>
     s\<lparr>preventDefaultCalls := preventDefaultCalls s + 1,
       containerIndexState :=
         (if fwd then containerIndexState s + 1 else containerIndexState s - 1),
       focusCalls := focusCalls s @ [e]\<rparr>"

text \<open>The state after \<^verbatim>\<open>focusElement\<close> on a present element \<open>e\<close>: lines 82 to 97.\<close>

abbreviation focused :: "navState \<Rightarrow> int \<Rightarrow> autoSelectPolicy option \<Rightarrow> element \<Rightarrow> navState" where
  "focused s ci pol e \<equiv>
     s\<lparr>focusCalls := focusCalls s @ [e],
       clickCalls := (if pol = Some (AutoSelectBool True)
                         \<or> (\<exists>m. pol = Some (AutoSelectMap m) \<and> m ci = Some True)
                      then clickCalls s @ [e] else clickCalls s),
       preventDefaultCalls := preventDefaultCalls s + 1\<rparr>"

subsection \<open>The marker as a class\<close>

text \<open>
  The marker as the specification words it (``the first element whose marker set includes
  that name'') and as the comment of line 61 does (``Checks for selected class''): the
  element has the class, that is, the marker name is one of the tokens of its class string,
  split at ASCII whitespace, which is what \<^verbatim>\<open>classList.contains\<close> answers.
  This is the reading of the specification, written to be compared with the test of the
  code, \<open>is_selected\<close>.
\<close>

definition ascii_whitespace :: "char list" where
  "ascii_whitespace = [CHR '' '', CHR 0x09, CHR 0x0A, CHR 0x0C, CHR 0x0D]"

fun class_tokens_from :: "string \<Rightarrow> string \<Rightarrow> string list" where
  "class_tokens_from cur [] = (if cur = [] then [] else [cur])"
| "class_tokens_from cur (c # cs) =
     (if c \<in> set ascii_whitespace
      then (if cur = [] then class_tokens_from [] cs else cur # class_tokens_from [] cs)
      else class_tokens_from (cur @ [c]) cs)"

definition class_tokens :: "string \<Rightarrow> string list" where
  "class_tokens s = class_tokens_from [] s"

definition spec_has_marker :: "document \<Rightarrow> string \<Rightarrow> element \<Rightarrow> bool" where
  "spec_has_marker doc name el = (name \<in> set (class_tokens (className doc el)))"

subsection \<open>A small page\<close>

text \<open>
  Five containers: 100 holds the nodes 1 and 2, 101 holds 3 and 4, 103 holds 6 and 7, 105
  holds 8 and 9, and 102 holds node 5, which only the expression of every known kind
  matches. The nodes 4 and 9 carry the class \<^verbatim>\<open>selected\<close>, the nodes 2 and 8
  the class \<^verbatim>\<open>unselected\<close>. The expression \<^verbatim>\<open>??\<close> does not parse.
  Node 1 has the focus.
\<close>

definition demo_document :: document where
  "demo_document =
     \<lparr>activeElement = Some 1,
      className = (\<lambda>e. if e = 4 then ''item selected'' else if e = 2 then ''unselected''
                        else if e = 8 then ''unselected'' else if e = 9 then ''selected''
                        else ''item''),
      querySelectorAll =
        (\<lambda>c sel. if sel = ''??'' then Inl SyntaxError
                  else if c = 100 then Inr [1, 2]
                  else if c = 101 then Inr [3, 4]
                  else if c = 102 \<and> sel = parseSelectors (Many allSelectors) then Inr [5]
                  else if c = 103 then Inr [6, 7]
                  else if c = 105 then Inr [8, 9]
                  else Inr [])\<rparr>"

definition demo_state :: navState where
  "demo_state =
     \<lparr>containerIndexState = 0, focusCalls = [], clickCalls = [], preventDefaultCalls = 0\<rparr>"

definition keyPress :: "string \<Rightarrow> keyboardEvent" where
  "keyPress k = \<lparr>key = k, shiftKey = False\<rparr>"

definition demo_options :: "autoSelectPolicy option \<Rightarrow> string \<Rightarrow> options" where
  "demo_options pol sel =
     \<lparr>selectors = Some (Single sel), autoSelect = pol, tabKeyContainerLevel = None,
      selectedClassName = None\<rparr>"

lemmas demo_defs = demo_document_def demo_state_def keyPress_def demo_options_def

lemmas eval_defs =
  handleEvents_def handleSwitchContainer_def handleUpDown_def moveToContainer_def
  moveToContainer_select_def focusElement_def checkForPreviouslyFocusedElement_def
  is_selected_def getFocusableElements_def resolveSelectors_def option_field_def
  parseSelectors_def allSelectors_def SELECTED_CLASSNAME_def container_at_def at_index_def
  findIndex_def Let_def

subsection \<open>Indexing and searching\<close>

lemma at_index_Nil: "at_index [] i = None"
  by (simp add: at_index_def)

lemma at_index_0_Cons: "at_index (x # xs) 0 = Some x"
  by (simp add: at_index_def)

lemma at_index_negative: "i < 0 \<Longrightarrow> at_index xs i = None"
  by (simp add: at_index_def)

lemma at_index_length: "at_index xs (int (length xs)) = None"
  by (simp add: at_index_def)

lemma findIndexFrom_absent: "\<forall>x \<in> set xs. \<not> p x \<Longrightarrow> findIndexFrom p xs k = - 1"
  by (induction xs arbitrary: k) auto

lemma findIndexFrom_first:
  "i < length xs \<Longrightarrow> p (xs ! i) \<Longrightarrow> \<forall>j < i. \<not> p (xs ! j) \<Longrightarrow> findIndexFrom p xs k = k + int i"
proof (induction xs arbitrary: i k)
  case Nil
  then show ?case by simp
next
  case (Cons x xs)
  show ?case
  proof (cases i)
    case 0
    with Cons.prems show ?thesis by simp
  next
    case (Suc n)
    from Cons.prems Suc have nx: "\<not> p x" by auto
    from Cons.prems Suc have "n < length xs" "p (xs ! n)" "\<forall>j < n. \<not> p (xs ! j)" by auto
    then have "findIndexFrom p xs (k + 1) = k + 1 + int n" by (rule Cons.IH)
    with nx Suc show ?thesis by simp
  qed
qed

lemma findIndex_absent: "\<forall>x \<in> set xs. \<not> p x \<Longrightarrow> findIndex p xs = - 1"
  by (simp add: findIndex_def findIndexFrom_absent)

lemma findIndex_hd: "xs \<noteq> [] \<Longrightarrow> findIndex (\<lambda>x. x = hd xs) xs = 0"
  by (cases xs) (simp_all add: findIndex_def)

lemma findIndex_last:
  assumes "xs \<noteq> []" "distinct xs"
  shows "findIndex (\<lambda>x. x = last xs) xs = int (length xs) - 1"
proof -
  let ?i = "length xs - 1"
  have i: "?i < length xs" using assms by simp
  have l: "xs ! ?i = last xs" using assms by (simp add: last_conv_nth)
  have "\<forall>j < ?i. xs ! j \<noteq> last xs"
    using assms i l by (metis nth_eq_iff_index_eq less_trans nat_neq_iff)
  then have "findIndexFrom (\<lambda>x. x = last xs) xs 0 = 0 + int ?i"
    using i l by (intro findIndexFrom_first) auto
  then show ?thesis using assms by (simp add: findIndex_def Suc_leI)
qed

lemma focusElement_None: "focusElement None ev ci pol s = s"
  by (simp add: focusElement_def)

lemma focusElement_Some:
  "focusElement (Some e) ev ci pol s =
     s\<lparr>focusCalls := focusCalls s @ [e],
       clickCalls := (if pol = Some (AutoSelectBool True)
                         \<or> (\<exists>m. pol = Some (AutoSelectMap m) \<and> m ci = Some True)
                      then clickCalls s @ [e] else clickCalls s),
       preventDefaultCalls := preventDefaultCalls s + 1\<rparr>"
proof (cases pol)
  case None
  then show ?thesis by (simp add: focusElement_def)
next
  case (Some a)
  then show ?thesis by (cases a) (simp_all add: focusElement_def)
qed

subsection \<open>Selection and container switches\<close>

lemma startsWith_iff: "startsWith s t \<longleftrightarrow> (\<exists>q. s = t @ q)"
  by (induction s t rule: startsWith.induct) auto

lemma str_includes_iff: "str_includes s t \<longleftrightarrow> (\<exists>p q. s = p @ t @ q)"
proof (induction s)
  case Nil
  then show ?case by simp
next
  case (Cons c cs)
  show ?case
  proof
    assume "str_includes (c # cs) t"
    then consider "startsWith (c # cs) t" | "str_includes cs t" by auto
    then show "\<exists>p q. c # cs = p @ t @ q"
    proof cases
      case 1
      then obtain q where "c # cs = t @ q" by (auto simp: startsWith_iff)
      then have "c # cs = [] @ t @ q" by simp
      then show ?thesis by blast
    next
      case 2
      then obtain p q where "cs = p @ t @ q" using Cons.IH by blast
      then have "c # cs = (c # p) @ t @ q" by simp
      then show ?thesis by blast
    qed
  next
    assume "\<exists>p q. c # cs = p @ t @ q"
    then obtain p q where pq: "c # cs = p @ t @ q" by blast
    show "str_includes (c # cs) t"
    proof (cases p)
      case Nil
      with pq have "startsWith (c # cs) t" by (auto simp: startsWith_iff)
      then show ?thesis by simp
    next
      case (Cons a p')
      with pq have "cs = p' @ t @ q" by simp
      then have "str_includes cs t" using Cons.IH by blast
      then show ?thesis by simp
    qed
  qed
qed

lemma check_nonempty:
  "els \<noteq> [] \<Longrightarrow> \<exists>e. checkForPreviouslyFocusedElement doc els scn = Some e"
  by (cases els) (auto simp: checkForPreviouslyFocusedElement_def at_index_0_Cons split: option.splits)

lemma parseSelectors_allSelectors:
  "parseSelectors (Many allSelectors)
     = ''a,button,[href],input,select,textarea,[tabindex]:not([tabindex=\"-1\"])''"
  by (simp add: parseSelectors_def allSelectors_def)

lemma select_Some:
  "checkForPreviouslyFocusedElement doc els scn = Some e \<Longrightarrow>
     moveToContainer_select doc els fwd ev scn s =
       s\<lparr>preventDefaultCalls := preventDefaultCalls s + 1,
         containerIndexState := (if fwd then containerIndexState s + 1 else containerIndexState s - 1),
         focusCalls := focusCalls s @ [e]\<rparr>"
  by (simp add: moveToContainer_select_def)

lemma moveToContainer_absent: "moveToContainer doc None fwd ev sels scn s = (None, s)"
  by (simp add: moveToContainer_def)

lemma moveToContainer_primary:
  "querySelectorAll doc c sel = Inr els \<Longrightarrow> els \<noteq> [] \<Longrightarrow>
     moveToContainer doc (Some c) fwd ev (Some sel) scn s
       = (None, moveToContainer_select doc els fwd ev scn s)"
  by (simp add: moveToContainer_def getFocusableElements_def)

lemma moveToContainer_fallback:
  "querySelectorAll doc c sel = Inr [] \<Longrightarrow>
   querySelectorAll doc c (parseSelectors (Many allSelectors)) = Inr els \<Longrightarrow> els \<noteq> [] \<Longrightarrow>
     moveToContainer doc (Some c) fwd ev (Some sel) scn s
       = (None, moveToContainer_select doc els fwd ev scn s)"
  by (simp add: moveToContainer_def getFocusableElements_def)

lemma moveToContainer_empty:
  "querySelectorAll doc c sel = Inr [] \<Longrightarrow>
   querySelectorAll doc c (parseSelectors (Many allSelectors)) = Inr [] \<Longrightarrow>
     moveToContainer doc (Some c) fwd ev (Some sel) scn s = (None, s)"
  by (simp add: moveToContainer_def getFocusableElements_def)

lemma moveToContainer_cases:
  assumes r: "moveToContainer doc cand fwd ev (Some sel) scn s = (thr, s')"
  shows "s' = s
     \<or> (\<exists>c els e. cand = Some c \<and> els \<noteq> [] \<and> thr = None
          \<and> (querySelectorAll doc c sel = Inr els
               \<or> (querySelectorAll doc c sel = Inr []
                    \<and> querySelectorAll doc c (parseSelectors (Many allSelectors)) = Inr els))
          \<and> checkForPreviouslyFocusedElement doc els scn = Some e
          \<and> s' = s\<lparr>preventDefaultCalls := preventDefaultCalls s + 1,
                   containerIndexState :=
                     (if fwd then containerIndexState s + 1 else containerIndexState s - 1),
                   focusCalls := focusCalls s @ [e]\<rparr>)"
proof (cases cand)
  case None
  with r show ?thesis by (simp add: moveToContainer_absent)
next
  case (Some c)
  show ?thesis
  proof (cases "querySelectorAll doc c sel")
    case (Inl err)
    with r Some show ?thesis by (simp add: moveToContainer_def getFocusableElements_def)
  next
    case (Inr els)
    show ?thesis
    proof (cases "els = []")
      case False
      then obtain e where e: "checkForPreviouslyFocusedElement doc els scn = Some e"
        using check_nonempty by blast
      from r Some Inr False have "thr = None" "s' = moveToContainer_select doc els fwd ev scn s"
        by (simp_all add: moveToContainer_primary)
      with e Some Inr False show ?thesis by (auto simp: select_Some)
    next
      case True
      show ?thesis
      proof (cases "querySelectorAll doc c (parseSelectors (Many allSelectors))")
        case (Inl err)
        with r Some Inr True show ?thesis
          by (simp add: moveToContainer_def getFocusableElements_def)
      next
        case Inr2: (Inr els2)
        show ?thesis
        proof (cases "els2 = []")
          case True
          with r Some Inr \<open>els = []\<close> Inr2 show ?thesis by (simp add: moveToContainer_empty)
        next
          case False
          then obtain e where e: "checkForPreviouslyFocusedElement doc els2 scn = Some e"
            using check_nonempty by blast
          from r Some Inr True Inr2 False
          have "thr = None" "s' = moveToContainer_select doc els2 fwd ev scn s"
            by (simp_all add: moveToContainer_fallback)
          with e Some Inr True Inr2 False show ?thesis by (auto simp: select_Some)
        qed
      qed
    qed
  qed
qed

subsection \<open>Dispatch\<close>

lemma handleSwitchContainer_cases:
  assumes r: "handleSwitchContainer doc ev cs ci sel scn s = (thr, s')"
  shows "s' = s
       \<or> (\<exists>c els e. thr = None \<and> els \<noteq> [] \<and> yields doc c sel els
            \<and> checkForPreviouslyFocusedElement doc els scn = Some e
            \<and> ((previousKey ev \<and> 0 < ci \<and> container_at cs (ci - 1) = Some c
                  \<and> s' = switched s False e)
               \<or> (nextKey ev \<and> ci < int (length cs) - 1
                    \<and> container_at cs (ci + 1) = Some c \<and> s' = switched s True e)))"
proof (cases "previousKey ev")
  case True
  have "moveToContainer doc (if ci > 0 then container_at cs (ci - 1) else None)
               False ev (Some sel) scn s = (thr, s')"
    using r [unfolded handleSwitchContainer_def Let_def if_P [OF True]] .
  from moveToContainer_cases [OF this] True show ?thesis
    by (auto split: if_splits)
next
  case False
  note r' = r [unfolded handleSwitchContainer_def Let_def if_not_P [OF False]]
  show ?thesis
  proof (cases "key ev \<in> set [''Tab'', ''ArrowRight'']")
    case True
    have "moveToContainer doc
                 (if ci < int (length cs) - 1 then container_at cs (ci + 1) else None)
                 True ev (Some sel) scn s = (thr, s')"
      using r' [unfolded if_P [OF True]] .
    from moveToContainer_cases [OF this] True False show ?thesis
      by (auto split: if_splits)
  next
    case False
    from r' [unfolded if_not_P [OF False]] show ?thesis
      by simp
  qed
qed

lemma handleEvents_empty: "handleEvents doc ev [] ci opts s = (None, s)"
  by (auto simp add: handleEvents_def Let_def)

lemma handleEvents_unrecognized:
  "key ev \<notin> set [''ArrowUp'', ''ArrowDown'', ''Tab'', ''ArrowLeft'', ''ArrowRight'']
     \<Longrightarrow> handleEvents doc ev cs ci opts s = (None, s)"
  by (auto simp add: handleEvents_def Let_def)

lemma handleEvents_null_container:
  "cs \<noteq> [] \<Longrightarrow> key ev \<in> set [''ArrowUp'', ''ArrowDown'', ''Tab'', ''ArrowLeft'', ''ArrowRight'']
     \<Longrightarrow> container_at cs ci = None
     \<Longrightarrow> handleEvents doc ev cs ci opts s = (Some TypeError, s)"
  by (auto simp add: handleEvents_def Let_def)

lemma handleEvents_query_throws:
  "cs \<noteq> [] \<Longrightarrow> key ev \<in> set [''ArrowUp'', ''ArrowDown'', ''Tab'', ''ArrowLeft'', ''ArrowRight'']
     \<Longrightarrow> container_at cs ci = Some c
     \<Longrightarrow> querySelectorAll doc c (resolveSelectors opts) = Inl err
     \<Longrightarrow> handleEvents doc ev cs ci opts s = (Some err, s)"
  by (auto simp add: handleEvents_def Let_def)

lemma handleEvents_routed:
  "cs \<noteq> [] \<Longrightarrow> key ev \<in> set [''ArrowUp'', ''ArrowDown'', ''Tab'', ''ArrowLeft'', ''ArrowRight'']
     \<Longrightarrow> container_at cs ci = Some c
     \<Longrightarrow> querySelectorAll doc c (resolveSelectors opts) = Inr els
     \<Longrightarrow> handleEvents doc ev cs ci opts s =
          (if 1 < length cs \<and> switchKey ev opts
           then handleSwitchContainer doc ev cs ci (resolveSelectors opts)
                  (option_field opts selectedClassName) s
           else (None, handleUpDown ev (activeElement doc) els ci
                         (option_field opts autoSelect) s))"
  by (auto simp add: handleEvents_def Let_def)

lemma handleUpDown_cases:
  "handleUpDown ev act els ci pol s = s
   \<or> (\<exists>e. key ev \<in> set [''ArrowUp'', ''ArrowDown'']
          \<and> handleUpDown ev act els ci pol s = focusElement (Some e) ev ci pol s)"
proof -
  let ?i = "findIndex (\<lambda>a. Some a = act) els"
  let ?n = "if key ev = ''ArrowUp'' then at_index els (?i - 1)
            else if key ev = ''ArrowDown'' then at_index els (?i + 1) else None"
  have h: "handleUpDown ev act els ci pol s = focusElement ?n ev ci pol s"
    by (simp add: handleUpDown_def)
  show ?thesis
  proof (cases ?n)
    case None
    with h show ?thesis by (simp add: focusElement_None)
  next
    case (Some e)
    then have "key ev \<in> set [''ArrowUp'', ''ArrowDown'']" by (auto split: if_splits)
    with h Some show ?thesis by auto
  qed
qed

lemma handleUpDown_other_key:
  "key ev \<notin> set [''ArrowUp'', ''ArrowDown''] \<Longrightarrow> handleUpDown ev act els ci pol s = s"
  using handleUpDown_cases [of ev act els ci pol s] by blast

text \<open>Every call ends in one of three shapes.\<close>

lemma handleEvents_cases:
  assumes r: "handleEvents doc ev cs ci opts s = (thr, s')"
  shows "s' = s
       \<or> (\<exists>c els e. thr = None \<and> container_at cs ci = Some c
            \<and> querySelectorAll doc c (resolveSelectors opts) = Inr els
            \<and> \<not> (1 < length cs \<and> switchKey ev opts)
            \<and> key ev \<in> set [''ArrowUp'', ''ArrowDown'']
            \<and> s' = focusElement (Some e) ev ci (option_field opts autoSelect) s)
       \<or> (1 < length cs \<and> switchKey ev opts
            \<and> (\<exists>c els e. thr = None \<and> els \<noteq> [] \<and> yields doc c (resolveSelectors opts) els
                 \<and> checkForPreviouslyFocusedElement doc els
                      (option_field opts selectedClassName) = Some e
                 \<and> ((previousKey ev \<and> 0 < ci \<and> container_at cs (ci - 1) = Some c
                       \<and> s' = switched s False e)
                    \<or> (nextKey ev \<and> ci < int (length cs) - 1
                         \<and> container_at cs (ci + 1) = Some c \<and> s' = switched s True e))))"
proof -
  consider (empty) "cs = []"
    | (key) "key ev \<notin> set [''ArrowUp'', ''ArrowDown'', ''Tab'', ''ArrowLeft'', ''ArrowRight'']"
    | (null) "cs \<noteq> []"
        "key ev \<in> set [''ArrowUp'', ''ArrowDown'', ''Tab'', ''ArrowLeft'', ''ArrowRight'']"
        "container_at cs ci = None"
    | (throws) c err where "cs \<noteq> []"
        "key ev \<in> set [''ArrowUp'', ''ArrowDown'', ''Tab'', ''ArrowLeft'', ''ArrowRight'']"
        "container_at cs ci = Some c" "querySelectorAll doc c (resolveSelectors opts) = Inl err"
    | (routed) c els where "cs \<noteq> []"
        "key ev \<in> set [''ArrowUp'', ''ArrowDown'', ''Tab'', ''ArrowLeft'', ''ArrowRight'']"
        "container_at cs ci = Some c" "querySelectorAll doc c (resolveSelectors opts) = Inr els"
    by (cases "container_at cs ci"; cases "querySelectorAll doc (the (container_at cs ci)) (resolveSelectors opts)") auto
  then show ?thesis
  proof cases
    case empty
    with r show ?thesis by (simp add: handleEvents_empty)
  next
    case key
    with r show ?thesis by (simp add: handleEvents_unrecognized)
  next
    case null
    with r show ?thesis by (simp add: handleEvents_null_container)
  next
    case throws
    with r show ?thesis by (simp add: handleEvents_query_throws)
  next
    case routed
    note eq = handleEvents_routed [OF routed, of s]
    show ?thesis
    proof (cases "1 < length cs \<and> switchKey ev opts")
      case True
      from r eq [unfolded if_P [OF True]]
      have "handleSwitchContainer doc ev cs ci (resolveSelectors opts)
              (option_field opts selectedClassName) s = (thr, s')"
        by simp
      from handleSwitchContainer_cases [OF this] True show ?thesis
        by blast
    next
      case False
      from r eq [unfolded if_not_P [OF False]] have t: "thr = None"
        and s': "s' = handleUpDown ev (activeElement doc) els ci (option_field opts autoSelect) s"
        by simp_all
      from handleUpDown_cases [of ev "activeElement doc" els ci "option_field opts autoSelect" s]
      show ?thesis
      proof
        assume "handleUpDown ev (activeElement doc) els ci (option_field opts autoSelect) s = s"
        with s' show ?thesis by simp
      next
        assume "\<exists>e. key ev \<in> set [''ArrowUp'', ''ArrowDown'']
          \<and> handleUpDown ev (activeElement doc) els ci (option_field opts autoSelect) s
              = focusElement (Some e) ev ci (option_field opts autoSelect) s"
        then obtain e where "key ev \<in> set [''ArrowUp'', ''ArrowDown'']"
          "s' = focusElement (Some e) ev ci (option_field opts autoSelect) s"
          using s' by auto
        with t routed False show ?thesis by blast
      qed
    qed
  qed
qed

lemma handleUpDown_neighbour:
  "handleUpDown ev act els ci pol s = focusElement (neighbour ev act els) ev ci pol s"
  by (simp add: handleUpDown_def)

lemma handleSwitchContainer_candidate:
  "handleSwitchContainer doc ev cs ci sel scn s
     = moveToContainer doc (candidate ev cs ci) (\<not> previousKey ev) ev (Some sel) scn s"
proof (cases "previousKey ev")
  case True
  show ?thesis
    unfolding handleSwitchContainer_def Let_def if_P [OF True] using True by simp
next
  case False
  show ?thesis
  proof (cases "key ev \<in> set [''Tab'', ''ArrowRight'']")
    case True
    show ?thesis
      unfolding handleSwitchContainer_def Let_def if_not_P [OF False] if_P [OF True]
      using False by simp
  next
    case False
    show ?thesis
      unfolding handleSwitchContainer_def Let_def if_not_P [OF \<open>\<not> previousKey ev\<close>]
        if_not_P [OF False]
      by (simp add: moveToContainer_absent)
  qed
qed

lemma select_clicks:
  "clickCalls (moveToContainer_select doc els fwd ev scn s) = clickCalls s"
  by (simp add: moveToContainer_select_def Let_def split: option.splits)

lemma moveToContainer_clicks:
  "clickCalls (snd (moveToContainer doc cand fwd ev sels scn s)) = clickCalls s"
  by (simp add: moveToContainer_def select_clicks split: option.splits sum.splits)

lemma handleEvents_dichotomy:
  assumes "handleEvents doc ev cs ci opts s = (thr, s')"
  shows "s' = s
       \<or> (\<exists>e. focusCalls s' = focusCalls s @ [e]
              \<and> preventDefaultCalls s' = preventDefaultCalls s + 1)"
  using handleEvents_cases [OF assms] by (auto simp: focusElement_Some)

lemma handleEvents_switch_clicks:
  assumes "1 < length cs" "switchKey ev opts"
  shows "clickCalls (snd (handleEvents doc ev cs ci opts s)) = clickCalls s"
proof -
  obtain thr s' where r: "handleEvents doc ev cs ci opts s = (thr, s')"
    by (cases "handleEvents doc ev cs ci opts s")
  from handleEvents_cases [OF r] assms have "clickCalls s' = clickCalls s"
    by auto
  with r show ?thesis by simp
qed

lemma handleEvents_candidate_absent:
  assumes r: "handleEvents doc ev cs ci opts s = (thr, s')"
    and "1 < length cs" "switchKey ev opts" "candidate ev cs ci = None"
  shows "s' = s"
  using handleEvents_cases [OF r] assms(2-) by (auto split: if_splits)

lemma handleEvents_candidate_empty:
  assumes r: "handleEvents doc ev cs ci opts s = (thr, s')"
    and "1 < length cs" "switchKey ev opts" "candidate ev cs ci = Some c"
    and "querySelectorAll doc c (resolveSelectors opts) = Inr []"
    and "querySelectorAll doc c (parseSelectors (Many allSelectors)) = Inr []"
  shows "s' = s"
  using handleEvents_cases [OF r] assms(2-) by (auto split: if_splits)

lemma handleEvents_neighbour_absent:
  assumes r: "handleEvents doc ev cs ci opts s = (thr, s')"
    and "\<not> (1 < length cs \<and> switchKey ev opts)"
    and "container_at cs ci = Some c"
    and "querySelectorAll doc c (resolveSelectors opts) = Inr els"
    and "neighbour ev (activeElement doc) els = None"
  shows "s' = s"
proof (cases "cs = [] \<or> key ev \<notin> set [''ArrowUp'', ''ArrowDown'', ''Tab'', ''ArrowLeft'', ''ArrowRight'']")
  case True
  with r show ?thesis by (auto simp: handleEvents_empty handleEvents_unrecognized)
next
  case False
  then have "cs \<noteq> []"
    "key ev \<in> set [''ArrowUp'', ''ArrowDown'', ''Tab'', ''ArrowLeft'', ''ArrowRight'']"
    by auto
  note eq = handleEvents_routed [OF this assms(3,4), of s, unfolded if_not_P [OF assms(2)]]
  have "handleUpDown ev (activeElement doc) els ci (option_field opts autoSelect) s = s"
    unfolding handleUpDown_neighbour assms(5) by (rule focusElement_None)
  with r eq show ?thesis by simp
qed

lemma focusElement_index:
  "containerIndexState (focusElement el ev ci pol s) = containerIndexState s"
  by (cases el) (simp_all add: focusElement_None focusElement_Some)

lemma handleUpDown_absent_Up:
  assumes "\<forall>e \<in> set els. Some e \<noteq> act" "key ev = ''ArrowUp''"
  shows "handleUpDown ev act els ci pol s = s"
proof -
  have "findIndex (\<lambda>a. Some a = act) els = - 1"
    using assms(1) by (intro findIndex_absent) simp
  then show ?thesis
    using assms(2) by (simp add: handleUpDown_def at_index_negative focusElement_None)
qed

lemma handleUpDown_absent_Down:
  assumes "\<forall>e \<in> set els. Some e \<noteq> act" "key ev = ''ArrowDown''"
  shows "handleUpDown ev act els ci pol s = focusElement (at_index els 0) ev ci pol s"
proof -
  have "findIndex (\<lambda>a. Some a = act) els = - 1"
    using assms(1) by (intro findIndex_absent) simp
  then show ?thesis
    using assms(2) by (simp add: handleUpDown_def)
qed

text \<open>
  With more than one container, a switching key, a present active container and a query on
  it that does not throw, the event is a call of \<^verbatim>\<open>moveToContainer\<close> on the
  candidate container.
\<close>

lemma handleEvents_switch:
  assumes "1 < length cs" and "switchKey ev opts" and "container_at cs ci = Some c0"
    and "querySelectorAll doc c0 (resolveSelectors opts) = Inr els0"
  shows "handleEvents doc ev cs ci opts s
         = moveToContainer doc (candidate ev cs ci) (\<not> previousKey ev) ev
             (Some (resolveSelectors opts)) (option_field opts selectedClassName) s"
proof -
  from assms(1) have ne: "cs \<noteq> []" by auto
  from assms(2)
  have k: "key ev \<in> set [''ArrowUp'', ''ArrowDown'', ''Tab'', ''ArrowLeft'', ''ArrowRight'']"
    by auto
  from assms(1,2) have routed: "1 < length cs \<and> switchKey ev opts" by simp
  show ?thesis
    unfolding handleEvents_routed [OF ne k assms(3,4), of s] if_P [OF routed]
    by (rule handleSwitchContainer_candidate)
qed

lemma moveToContainer_yields:
  assumes "yields doc c sel els" and "els \<noteq> []"
    and "checkForPreviouslyFocusedElement doc els scn = Some e"
  shows "moveToContainer doc (Some c) fwd ev (Some sel) scn s = (None, switched s fwd e)"
  using assms moveToContainer_primary [of doc c sel els fwd ev scn s]
    moveToContainer_fallback [of doc c sel els fwd ev scn s]
    select_Some [of doc els scn e fwd ev s]
  by auto


section \<open>The claims\<close>

subsection \<open>C1: the focused element is not in the container's sequence\<close>

text \<open>
  As stated, C1 fails for the Down key. \<^verbatim>\<open>findIndex\<close> answers \<open>-1\<close> for an element
  that is not in the sequence, and \<^verbatim>\<open>elements[-1 + 1]\<close> is the first element: with
  node 9 focused and the sequence 1, 2, the Down key focuses node 1 and suppresses the
  event's default handling.
\<close>

theorem handleUpDown_unfocused_counterexample:
  "Some 9 \<notin> Some ` set [1, 2 :: nat]
   \<and> handleUpDown \<lparr>key = ''ArrowDown'', shiftKey = False\<rparr> (Some 9) [1, 2] 0 None
       \<lparr>containerIndexState = 0, focusCalls = [], clickCalls = [], preventDefaultCalls = 0\<rparr>
     = \<lparr>containerIndexState = 0, focusCalls = [1], clickCalls = [], preventDefaultCalls = 1\<rparr>"
  by (simp add: handleUpDown_def findIndex_def at_index_def focusElement_def)

text \<open>
  C1, amended. When the focused element is not in the container's sequence (compared by
  identity), the Up key is a no-op: no element is focused, nothing is activated and the
  default handling is not suppressed. The Down key focuses the first element of the sequence,
  suppresses the default handling and activates that element when the AutoSelect policy says
  so; it is a no-op only when the sequence is empty.
\<close>

theorem handleUpDown_unfocused:
  assumes "\<forall>e \<in> set els. Some e \<noteq> act"
  shows "(key ev = ''ArrowUp'' \<longrightarrow> handleUpDown ev act els ci pol s = s)
       \<and> (key ev = ''ArrowDown'' \<longrightarrow>
            handleUpDown ev act els ci pol s =
              (case els of [] \<Rightarrow> s | e # rest \<Rightarrow> focused s ci pol e))"
proof (intro conjI impI)
  assume "key ev = ''ArrowUp''"
  with assms show "handleUpDown ev act els ci pol s = s"
    by (rule handleUpDown_absent_Up)
next
  assume "key ev = ''ArrowDown''"
  with assms have "handleUpDown ev act els ci pol s = focusElement (at_index els 0) ev ci pol s"
    by (rule handleUpDown_absent_Down)
  then show "handleUpDown ev act els ci pol s =
               (case els of [] \<Rightarrow> s | e # rest \<Rightarrow> focused s ci pol e)"
    by (cases els) (simp_all add: at_index_Nil at_index_0_Cons focusElement_None focusElement_Some)
qed

theorem handleUpDown_unfocused_witness:
  "Some 9 \<notin> Some ` set [1, 2 :: nat]
   \<and> handleUpDown (keyPress ''ArrowUp'') (Some 9) [1, 2] 0 (Some (AutoSelectBool True)) demo_state
     = demo_state
   \<and> handleUpDown (keyPress ''ArrowDown'') (Some 9) [1, 2] 0 (Some (AutoSelectBool True))
       demo_state
     = \<lparr>containerIndexState = 0, focusCalls = [1], clickCalls = [1], preventDefaultCalls = 1\<rparr>"
proof -
  have h: "\<forall>e \<in> set [1, 2 :: nat]. Some e \<noteq> Some 9" by simp
  show ?thesis
    using handleUpDown_unfocused [OF h, of "keyPress ''ArrowUp''" 0 "Some (AutoSelectBool True)"
        demo_state]
      handleUpDown_unfocused [OF h, of "keyPress ''ArrowDown''" 0 "Some (AutoSelectBool True)"
        demo_state]
    by (simp add: demo_defs)
qed

subsection \<open>C2: the container index stays in range and moves by one\<close>

text \<open>
  C2. Let the container sequence be non-empty, \<open>0 \<le> containerIndex < length containers\<close>,
  and the handler be given the current value of the state cell. After any event the index
  is still in range. It differs from the prior index only on the inter-container path, only
  when the candidate container exists and yields at least one focusable element, and then
  it is the prior index minus one for a key of the previous class and plus one for a key
  of the next class. A previous-class key at index 0 leaves the index 0, a next-class key
  at the last index leaves it there.
\<close>

theorem containerIndex_invariant:
  assumes "cs \<noteq> []" and "0 \<le> ci" and "ci < int (length cs)"
    and "containerIndexState s = ci"
    and "handleEvents doc ev cs ci opts s = (thr, s')"
  shows "0 \<le> containerIndexState s' \<and> containerIndexState s' < int (length cs)
       \<and> (containerIndexState s' \<noteq> ci \<longrightarrow>
            1 < length cs \<and> switchKey ev opts
            \<and> (\<exists>c els. els \<noteq> [] \<and> yields doc c (resolveSelectors opts) els
                 \<and> ((previousKey ev \<and> 0 < ci \<and> container_at cs (ci - 1) = Some c
                       \<and> containerIndexState s' = ci - 1)
                    \<or> (nextKey ev \<and> ci < int (length cs) - 1
                         \<and> container_at cs (ci + 1) = Some c
                         \<and> containerIndexState s' = ci + 1))))
       \<and> (previousKey ev \<and> ci = 0 \<longrightarrow> containerIndexState s' = 0)
       \<and> (nextKey ev \<and> ci = int (length cs) - 1 \<longrightarrow> containerIndexState s' = ci)"
proof -
  from handleEvents_cases [OF assms(5)]
  consider (same) "s' = s"
    | (intra) e where "s' = focusElement (Some e) ev ci (option_field opts autoSelect) s"
    | (prev) c els e where "1 < length cs" "switchKey ev opts" "els \<noteq> []"
        "yields doc c (resolveSelectors opts) els" "previousKey ev" "0 < ci"
        "container_at cs (ci - 1) = Some c" "s' = switched s False e"
    | (nxt) c els e where "1 < length cs" "switchKey ev opts" "els \<noteq> []"
        "yields doc c (resolveSelectors opts) els" "nextKey ev" "ci < int (length cs) - 1"
        "container_at cs (ci + 1) = Some c" "s' = switched s True e"
    by blast
  then show ?thesis
  proof cases
    case same
    with assms(2,3,4) show ?thesis by simp
  next
    case intra
    then have "containerIndexState s' = ci"
      using assms(4) by (simp add: focusElement_index)
    with assms(2,3) show ?thesis by simp
  next
    case prev
    from prev(8) assms(4) have i: "containerIndexState s' = ci - 1" by simp
    have a: "0 \<le> containerIndexState s' \<and> containerIndexState s' < int (length cs)"
      using i prev(6) assms(3) by simp
    have b: "\<exists>c els. els \<noteq> [] \<and> yields doc c (resolveSelectors opts) els
                 \<and> ((previousKey ev \<and> 0 < ci \<and> container_at cs (ci - 1) = Some c
                       \<and> containerIndexState s' = ci - 1)
                    \<or> (nextKey ev \<and> ci < int (length cs) - 1
                         \<and> container_at cs (ci + 1) = Some c
                         \<and> containerIndexState s' = ci + 1))"
      using prev(3,4,5,6,7) i by blast
    have c: "previousKey ev \<and> ci = 0 \<longrightarrow> containerIndexState s' = 0"
      using prev(6) by simp
    have d: "nextKey ev \<and> ci = int (length cs) - 1 \<longrightarrow> containerIndexState s' = ci"
      using prev(5) by blast
    from a b c d prev(1,2) show ?thesis by blast
  next
    case nxt
    from nxt(8) assms(4) have i: "containerIndexState s' = ci + 1" by simp
    have a: "0 \<le> containerIndexState s' \<and> containerIndexState s' < int (length cs)"
      using i nxt(6) assms(2) by simp
    have b: "\<exists>c els. els \<noteq> [] \<and> yields doc c (resolveSelectors opts) els
                 \<and> ((previousKey ev \<and> 0 < ci \<and> container_at cs (ci - 1) = Some c
                       \<and> containerIndexState s' = ci - 1)
                    \<or> (nextKey ev \<and> ci < int (length cs) - 1
                         \<and> container_at cs (ci + 1) = Some c
                         \<and> containerIndexState s' = ci + 1))"
      using nxt(3,4,5,6,7) i by blast
    have c: "previousKey ev \<and> ci = 0 \<longrightarrow> containerIndexState s' = 0"
      using nxt(5) by blast
    have d: "nextKey ev \<and> ci = int (length cs) - 1 \<longrightarrow> containerIndexState s' = ci"
      using nxt(6) by simp
    from a b c d nxt(1,2) show ?thesis by blast
  qed
qed

text \<open>
  On the small page: the Right key at index 0 of two containers moves the index to 1, and
  the Left key at index 0 leaves it 0.
\<close>

theorem containerIndex_invariant_witness:
  "[Some (100 :: nat), Some 101] \<noteq> [] \<and> (0 :: int) \<le> 0
   \<and> (0 :: int) < int (length [Some (100 :: nat), Some 101])
   \<and> containerIndexState demo_state = 0
   \<and> handleEvents demo_document (keyPress ''ArrowRight'') [Some 100, Some 101] 0 None demo_state
       = (None, \<lparr>containerIndexState = 1, focusCalls = [4], clickCalls = [],
                 preventDefaultCalls = 1\<rparr>)
   \<and> handleEvents demo_document (keyPress ''ArrowLeft'') [Some 100, Some 101] 0 None demo_state
       = (None, demo_state)
   \<and> containerIndexState \<lparr>containerIndexState = 1, focusCalls = [4], clickCalls = [],
                 preventDefaultCalls = 1\<rparr> < int (length [Some (100 :: nat), Some 101])"
proof -
  have h1: "[Some (100 :: nat), Some 101] \<noteq> []" by simp
  have h2: "(0 :: int) \<le> 0" by simp
  have h3: "(0 :: int) < int (length [Some (100 :: nat), Some 101])" by simp
  have h4: "containerIndexState demo_state = 0" by (simp add: demo_state_def)
  have h5: "handleEvents demo_document (keyPress ''ArrowRight'') [Some 100, Some 101] 0 None
              demo_state
            = (None, \<lparr>containerIndexState = 1, focusCalls = [4], clickCalls = [],
                      preventDefaultCalls = 1\<rparr>)"
    by (simp add: demo_defs eval_defs)
  have h6: "handleEvents demo_document (keyPress ''ArrowLeft'') [Some 100, Some 101] 0 None
              demo_state = (None, demo_state)"
    by (simp add: demo_defs eval_defs)
  from containerIndex_invariant [OF h1 h2 h3 h4 h5] containerIndex_invariant [OF h1 h2 h3 h4 h6]
    h1 h2 h3 h4 h5 h6
  show ?thesis by blast
qed

subsection \<open>C3: the focus actuator\<close>

text \<open>
  C3. \<^verbatim>\<open>focusElement\<close> on an absent element is a no-op. On a present element it
  focuses the element, suppresses the event's default handling whether or not it activates,
  and activates the element exactly when the AutoSelect policy is the boolean true or a
  mapping whose entry at the active container index is true: with the policy
  \<^verbatim>\<open>{1: true}\<close> it activates at index 1 and not at index 0 or 2.
\<close>

theorem focusElement_contract:
  "focusElement None ev ci pol s = s
   \<and> focusElement (Some e) ev ci pol s =
       s\<lparr>focusCalls := focusCalls s @ [e],
         clickCalls := (if pol = Some (AutoSelectBool True)
                           \<or> (\<exists>m. pol = Some (AutoSelectMap m) \<and> m ci = Some True)
                        then clickCalls s @ [e] else clickCalls s),
         preventDefaultCalls := preventDefaultCalls s + 1\<rparr>
   \<and> clickCalls (focusElement (Some e) ev 1 (Some (AutoSelectMap [1 \<mapsto> True])) s)
       = clickCalls s @ [e]
   \<and> clickCalls (focusElement (Some e) ev 0 (Some (AutoSelectMap [1 \<mapsto> True])) s)
       = clickCalls s
   \<and> clickCalls (focusElement (Some e) ev 2 (Some (AutoSelectMap [1 \<mapsto> True])) s)
       = clickCalls s"
  by (simp add: focusElement_None focusElement_Some)

theorem focusElement_contract_witness:
  "focusElement (Some 7) (keyPress ''ArrowDown'') 1 (Some (AutoSelectMap [1 \<mapsto> True]))
     demo_state
   = \<lparr>containerIndexState = 0, focusCalls = [7], clickCalls = [7], preventDefaultCalls = 1\<rparr>
   \<and> focusElement (Some 7) (keyPress ''ArrowDown'') 0 (Some (AutoSelectMap [1 \<mapsto> True]))
     demo_state
   = \<lparr>containerIndexState = 0, focusCalls = [7], clickCalls = [], preventDefaultCalls = 1\<rparr>
   \<and> focusElement (Some 7) (keyPress ''ArrowDown'') 0 (Some (AutoSelectBool False)) demo_state
   = \<lparr>containerIndexState = 0, focusCalls = [7], clickCalls = [], preventDefaultCalls = 1\<rparr>"
  using focusElement_contract [of "keyPress ''ArrowDown''" 1
      "Some (AutoSelectMap [1 \<mapsto> True])" demo_state 7]
    focusElement_contract [of "keyPress ''ArrowDown''" 0
      "Some (AutoSelectMap [1 \<mapsto> True])" demo_state 7]
    focusElement_contract [of "keyPress ''ArrowDown''" 0
      "Some (AutoSelectBool False)" demo_state 7]
  by (simp add: demo_defs)


subsection \<open>C4: selection memory\<close>

text \<open>
  C4 asks that selection memory return the first element bearing the marker, the first
  element of the sequence when no element bears it, and nothing on the empty sequence, so
  that a switch into a container with exactly one marked element focuses that element and a
  switch into a container with no marked element focuses the first element in document
  order. The code looks for the marker name anywhere in the class string, so the claim
  does not hold of it. On the small page no node of container 100 has the class
  \<^verbatim>\<open>selected\<close>, and a switch into it focuses node 2, of class
  \<^verbatim>\<open>unselected\<close>, instead of the first node 1. In container 105 node 9 is the
  one node with the class \<^verbatim>\<open>selected\<close>, and a switch into it focuses node 8,
  of class \<^verbatim>\<open>unselected\<close>, instead of node 9.
\<close>

theorem selection_memory_class_divergence:
  "\<not> spec_has_marker demo_document ''selected'' 1
   \<and> \<not> spec_has_marker demo_document ''selected'' 2
   \<and> checkForPreviouslyFocusedElement demo_document [1, 2] None = Some 2
   \<and> handleEvents demo_document (keyPress ''ArrowLeft'') [Some 100, Some 101] 1 None
        (demo_state\<lparr>containerIndexState := 1\<rparr>)
      = (None, \<lparr>containerIndexState = 0, focusCalls = [2], clickCalls = [],
                preventDefaultCalls = 1\<rparr>)
   \<and> \<not> spec_has_marker demo_document ''selected'' 8
   \<and> spec_has_marker demo_document ''selected'' 9
   \<and> checkForPreviouslyFocusedElement demo_document [8, 9] None = Some 8
   \<and> handleEvents demo_document (keyPress ''ArrowRight'') [Some 100, Some 105] 0 None
        demo_state
      = (None, \<lparr>containerIndexState = 1, focusCalls = [8], clickCalls = [],
                preventDefaultCalls = 1\<rparr>)"
proof -
  have t: "class_tokens ''item'' = [''item'']"
    "class_tokens ''unselected'' = [''unselected'']"
    "class_tokens ''selected'' = [''selected'']"
    by (simp_all add: class_tokens_def ascii_whitespace_def)
  have m: "\<not> spec_has_marker demo_document ''selected'' 1"
    "\<not> spec_has_marker demo_document ''selected'' 2"
    "\<not> spec_has_marker demo_document ''selected'' 8"
    "spec_has_marker demo_document ''selected'' 9"
    by (simp_all add: spec_has_marker_def demo_document_def t)
  have a: "checkForPreviouslyFocusedElement demo_document [1, 2] None = Some 2"
    by (simp add: demo_defs eval_defs)
  have b: "handleEvents demo_document (keyPress ''ArrowLeft'') [Some 100, Some 101] 1 None
        (demo_state\<lparr>containerIndexState := 1\<rparr>)
      = (None, \<lparr>containerIndexState = 0, focusCalls = [2], clickCalls = [],
                preventDefaultCalls = 1\<rparr>)"
    by (simp add: demo_defs eval_defs)
  have c: "checkForPreviouslyFocusedElement demo_document [8, 9] None = Some 8"
    by (simp add: demo_defs eval_defs)
  have d: "handleEvents demo_document (keyPress ''ArrowRight'') [Some 100, Some 105] 0 None
        demo_state
      = (None, \<lparr>containerIndexState = 1, focusCalls = [8], clickCalls = [],
                preventDefaultCalls = 1\<rparr>)"
    by (simp add: demo_defs eval_defs)
  from m a b c d show ?thesis
    by (intro conjI)
qed


subsection \<open>C5: the candidate container and the fallback query\<close>

text \<open>
  C5. A switch is a call of \<^verbatim>\<open>moveToContainer\<close> on the candidate container. On an
  absent candidate it is a no-op. On a present candidate the resolved selector expression
  is queried first; when that yields elements, one of them is focused; when it yields none,
  the candidate is queried again with the expression of every known kind; when that yields
  none either, the switch is a no-op: no focus call, no change of the container index, no
  call of preventDefault.
\<close>

theorem moveToContainer_queries:
  "moveToContainer doc None fwd ev sels scn s = (None, s)
   \<and> (querySelectorAll doc c sel = Inr els \<and> els \<noteq> []
      \<longrightarrow> (\<exists>e. checkForPreviouslyFocusedElement doc els scn = Some e
             \<and> moveToContainer doc (Some c) fwd ev (Some sel) scn s = (None, switched s fwd e)))
   \<and> (querySelectorAll doc c sel = Inr []
        \<and> querySelectorAll doc c
             ''a,button,[href],input,select,textarea,[tabindex]:not([tabindex=\"-1\"])''
            = Inr els
        \<and> els \<noteq> []
      \<longrightarrow> (\<exists>e. checkForPreviouslyFocusedElement doc els scn = Some e
             \<and> moveToContainer doc (Some c) fwd ev (Some sel) scn s = (None, switched s fwd e)))
   \<and> (querySelectorAll doc c sel = Inr []
        \<and> querySelectorAll doc c
             ''a,button,[href],input,select,textarea,[tabindex]:not([tabindex=\"-1\"])''
            = Inr []
      \<longrightarrow> moveToContainer doc (Some c) fwd ev (Some sel) scn s = (None, s))
   \<and> (1 < length cs \<and> switchKey ev opts \<and> container_at cs ci = Some hc
        \<and> querySelectorAll doc hc (resolveSelectors opts) = Inr hels
      \<longrightarrow> handleEvents doc ev cs ci opts s
            = moveToContainer doc (candidate ev cs ci) (\<not> previousKey ev) ev
                (Some (resolveSelectors opts)) (option_field opts selectedClassName) s)"
proof (intro conjI impI)
  show "moveToContainer doc None fwd ev sels scn s = (None, s)"
    by (rule moveToContainer_absent)
next
  assume a: "querySelectorAll doc c sel = Inr els \<and> els \<noteq> []"
  then obtain e where e: "checkForPreviouslyFocusedElement doc els scn = Some e"
    using check_nonempty by blast
  with a have "moveToContainer doc (Some c) fwd ev (Some sel) scn s = (None, switched s fwd e)"
    by (intro moveToContainer_yields) simp_all
  with e show "\<exists>e. checkForPreviouslyFocusedElement doc els scn = Some e
             \<and> moveToContainer doc (Some c) fwd ev (Some sel) scn s = (None, switched s fwd e)"
    by blast
next
  assume a: "querySelectorAll doc c sel = Inr []
        \<and> querySelectorAll doc c
             ''a,button,[href],input,select,textarea,[tabindex]:not([tabindex=\"-1\"])''
            = Inr els
        \<and> els \<noteq> []"
  then obtain e where e: "checkForPreviouslyFocusedElement doc els scn = Some e"
    using check_nonempty by blast
  from a have "yields doc c sel els"
    by (simp add: parseSelectors_allSelectors)
  with a e have "moveToContainer doc (Some c) fwd ev (Some sel) scn s
                   = (None, switched s fwd e)"
    by (intro moveToContainer_yields) simp_all
  with e show "\<exists>e. checkForPreviouslyFocusedElement doc els scn = Some e
             \<and> moveToContainer doc (Some c) fwd ev (Some sel) scn s = (None, switched s fwd e)"
    by blast
next
  assume "querySelectorAll doc c sel = Inr []
        \<and> querySelectorAll doc c
             ''a,button,[href],input,select,textarea,[tabindex]:not([tabindex=\"-1\"])''
            = Inr []"
  then show "moveToContainer doc (Some c) fwd ev (Some sel) scn s = (None, s)"
    by (intro moveToContainer_empty) (simp_all add: parseSelectors_allSelectors)
next
  assume "1 < length cs \<and> switchKey ev opts \<and> container_at cs ci = Some hc
        \<and> querySelectorAll doc hc (resolveSelectors opts) = Inr hels"
  then show "handleEvents doc ev cs ci opts s
            = moveToContainer doc (candidate ev cs ci) (\<not> previousKey ev) ev
                (Some (resolveSelectors opts)) (option_field opts selectedClassName) s"
    using handleEvents_switch [of cs ev opts ci hc doc hels s] by simp
qed

text \<open>
  On the small page: container 102 answers the expression \<^verbatim>\<open>.item\<close> with nothing
  and the expression of every known kind with node 5, which a switch focuses; container 104
  answers both with nothing, and the switch into it does nothing.
\<close>

theorem moveToContainer_queries_witness:
  "querySelectorAll demo_document 102 ''.item'' = Inr []
   \<and> moveToContainer demo_document (Some 102) True (keyPress ''ArrowRight'') (Some ''.item'')
       None demo_state
     = (None, \<lparr>containerIndexState = 1, focusCalls = [5], clickCalls = [],
               preventDefaultCalls = 1\<rparr>)
   \<and> moveToContainer demo_document (Some 101) True (keyPress ''ArrowRight'') (Some ''.item'')
       None demo_state
     = (None, \<lparr>containerIndexState = 1, focusCalls = [4], clickCalls = [],
               preventDefaultCalls = 1\<rparr>)
   \<and> moveToContainer demo_document (Some 104) True (keyPress ''ArrowRight'') (Some ''.item'')
       None demo_state
     = (None, demo_state)
   \<and> handleEvents demo_document (keyPress ''ArrowRight'') [Some 100, Some 104] 0
       (Some (demo_options None ''.item'')) demo_state
     = (None, demo_state)"
proof -
  note on_page = moveToContainer_queries [where doc = demo_document and fwd = True
      and ev = "keyPress ''ArrowRight''" and sel = "''.item''" and scn = None
      and s = demo_state]
  have q: "querySelectorAll demo_document 102 ''.item'' = Inr []"
    by (simp add: demo_defs parseSelectors_def allSelectors_def)
  have "\<exists>e. checkForPreviouslyFocusedElement demo_document [5] None = Some e
          \<and> moveToContainer demo_document (Some 102) True (keyPress ''ArrowRight'')
              (Some ''.item'') None demo_state = (None, switched demo_state True e)"
    by (rule on_page [where c = 102 and els = "[5]", THEN conjunct2, THEN conjunct2,
          THEN conjunct1, THEN mp])
       (simp add: demo_defs parseSelectors_def allSelectors_def)
  then have a: "moveToContainer demo_document (Some 102) True (keyPress ''ArrowRight'')
                  (Some ''.item'') None demo_state = (None, switched demo_state True 5)"
    by (auto simp: demo_defs eval_defs)
  have "\<exists>e. checkForPreviouslyFocusedElement demo_document [3, 4] None = Some e
          \<and> moveToContainer demo_document (Some 101) True (keyPress ''ArrowRight'')
              (Some ''.item'') None demo_state = (None, switched demo_state True e)"
    by (rule on_page [where c = 101 and els = "[3, 4]", THEN conjunct2, THEN conjunct1,
          THEN mp])
       (simp add: demo_defs)
  then have b: "moveToContainer demo_document (Some 101) True (keyPress ''ArrowRight'')
                  (Some ''.item'') None demo_state = (None, switched demo_state True 4)"
    by (auto simp: demo_defs eval_defs)
  have c: "moveToContainer demo_document (Some 104) True (keyPress ''ArrowRight'')
             (Some ''.item'') None demo_state = (None, demo_state)"
    by (rule on_page [where c = 104, THEN conjunct2, THEN conjunct2, THEN conjunct2,
          THEN conjunct1, THEN mp])
       (simp add: demo_defs)
  have "handleEvents demo_document (keyPress ''ArrowRight'') [Some 100, Some 104] 0
          (Some (demo_options None ''.item'')) demo_state
        = moveToContainer demo_document
            (candidate (keyPress ''ArrowRight'') [Some 100, Some 104] 0)
            (\<not> previousKey (keyPress ''ArrowRight'')) (keyPress ''ArrowRight'')
            (Some (resolveSelectors (Some (demo_options None ''.item''))))
            (option_field (Some (demo_options None ''.item'')) selectedClassName) demo_state"
    by (rule moveToContainer_queries [where doc = demo_document and hc = 100
          and hels = "[1, 2]", THEN conjunct2, THEN conjunct2, THEN conjunct2, THEN conjunct2,
          THEN mp])
       (simp add: demo_defs eval_defs)
  also have "\<dots> = moveToContainer demo_document (Some 104) True (keyPress ''ArrowRight'')
                    (Some ''.item'') None demo_state"
    by (simp add: demo_defs resolveSelectors_def option_field_def parseSelectors_def
          container_at_def at_index_def)
  finally have d: "handleEvents demo_document (keyPress ''ArrowRight'') [Some 100, Some 104] 0
          (Some (demo_options None ''.item'')) demo_state = (None, demo_state)"
    using c by simp
  from q a b c d show ?thesis
    by (simp add: demo_state_def)
qed

subsection \<open>C6: a switch does not activate\<close>

text \<open>
  C6. \<^verbatim>\<open>moveToContainer\<close> never calls \<^verbatim>\<open>click()\<close>, and neither does any
  event that is routed to the inter-container path, whatever the AutoSelect policy, the
  boolean true included: a switch that moves the focus makes one focus call and no
  activation.
\<close>

theorem switch_never_activates:
  "clickCalls (snd (moveToContainer doc cand fwd ev sels scn s)) = clickCalls s
   \<and> (1 < length cs \<and> switchKey ev opts
      \<longrightarrow> clickCalls (snd (handleEvents doc ev cs ci opts s)) = clickCalls s)
   \<and> (1 < length cs \<and> switchKey ev opts
        \<and> snd (handleEvents doc ev cs ci opts s) \<noteq> s
      \<longrightarrow> (\<exists>e. focusCalls (snd (handleEvents doc ev cs ci opts s)) = focusCalls s @ [e]))"
proof (intro conjI impI)
  show "clickCalls (snd (moveToContainer doc cand fwd ev sels scn s)) = clickCalls s"
    by (rule moveToContainer_clicks)
next
  assume "1 < length cs \<and> switchKey ev opts"
  then show "clickCalls (snd (handleEvents doc ev cs ci opts s)) = clickCalls s"
    by (intro handleEvents_switch_clicks) simp_all
next
  assume a: "1 < length cs \<and> switchKey ev opts \<and> snd (handleEvents doc ev cs ci opts s) \<noteq> s"
  obtain thr s' where r: "handleEvents doc ev cs ci opts s = (thr, s')"
    by (cases "handleEvents doc ev cs ci opts s")
  from handleEvents_dichotomy [OF r] a r
  show "\<exists>e. focusCalls (snd (handleEvents doc ev cs ci opts s)) = focusCalls s @ [e]"
    by auto
qed

text \<open>
  On the small page, with the policy \<^verbatim>\<open>autoSelect: true\<close>: the Right key switches to
  container 101 and focuses node 4 without a click, while the Down key inside container 100
  focuses node 2 and clicks it.
\<close>

theorem switch_never_activates_witness:
  "handleEvents demo_document (keyPress ''ArrowRight'') [Some 100, Some 101] 0
     (Some (demo_options (Some (AutoSelectBool True)) ''.item'')) demo_state
   = (None, \<lparr>containerIndexState = 1, focusCalls = [4], clickCalls = [],
             preventDefaultCalls = 1\<rparr>)
   \<and> handleEvents demo_document (keyPress ''ArrowDown'') [Some 100, Some 101] 0
     (Some (demo_options (Some (AutoSelectBool True)) ''.item'')) demo_state
   = (None, \<lparr>containerIndexState = 0, focusCalls = [2], clickCalls = [2],
             preventDefaultCalls = 1\<rparr>)
   \<and> clickCalls (snd (handleEvents demo_document (keyPress ''ArrowRight'') [Some 100, Some 101] 0
       (Some (demo_options (Some (AutoSelectBool True)) ''.item'')) demo_state))
     = clickCalls demo_state"
proof -
  have a: "handleEvents demo_document (keyPress ''ArrowRight'') [Some 100, Some 101] 0
     (Some (demo_options (Some (AutoSelectBool True)) ''.item'')) demo_state
   = (None, \<lparr>containerIndexState = 1, focusCalls = [4], clickCalls = [],
             preventDefaultCalls = 1\<rparr>)"
    by (simp add: demo_defs eval_defs)
  have b: "handleEvents demo_document (keyPress ''ArrowDown'') [Some 100, Some 101] 0
     (Some (demo_options (Some (AutoSelectBool True)) ''.item'')) demo_state
   = (None, \<lparr>containerIndexState = 0, focusCalls = [2], clickCalls = [2],
             preventDefaultCalls = 1\<rparr>)"
    by (simp add: demo_defs eval_defs)
  have c: "clickCalls (snd (handleEvents demo_document (keyPress ''ArrowRight'')
             [Some 100, Some 101] 0
             (Some (demo_options (Some (AutoSelectBool True)) ''.item'')) demo_state))
           = clickCalls demo_state"
    by (rule switch_never_activates [THEN conjunct2, THEN conjunct1, THEN mp])
       (simp add: demo_defs option_field_def)
  from a b c show ?thesis by blast
qed


subsection \<open>C7: no wrap-around inside a container\<close>

text \<open>
  C7. Inside a container whose ordered elements are \<open>e0 .. en\<close> (distinct nodes, as a
  query returns them), the Up key with \<open>e0\<close> focused and the Down key with \<open>en\<close> focused
  are no-ops: no focus call, no activation, no suppression of the default handling.
\<close>

theorem handleUpDown_boundary_clamp:
  assumes "els \<noteq> []"
  shows "(key ev = ''ArrowUp'' \<longrightarrow> handleUpDown ev (Some (hd els)) els ci pol s = s)
       \<and> (key ev = ''ArrowDown'' \<and> distinct els \<longrightarrow>
            handleUpDown ev (Some (last els)) els ci pol s = s)"
proof (intro conjI impI)
  assume "key ev = ''ArrowUp''"
  then show "handleUpDown ev (Some (hd els)) els ci pol s = s"
    using assms
    by (simp add: handleUpDown_def findIndex_hd at_index_negative focusElement_None)
next
  assume a: "key ev = ''ArrowDown'' \<and> distinct els"
  then have "findIndex (\<lambda>x. x = last els) els = int (length els) - 1"
    using assms by (intro findIndex_last) simp_all
  then show "handleUpDown ev (Some (last els)) els ci pol s = s"
    using a by (simp add: handleUpDown_def at_index_length focusElement_None)
qed

text \<open>
  With the elements 1, 2, 3 and the policy \<^verbatim>\<open>autoSelect: true\<close>: Up on 1 and Down on
  3 change nothing; on the small page, Up on the focused node 1 of container 100 changes
  nothing either.
\<close>

theorem handleUpDown_boundary_clamp_witness:
  "[1, 2, 3 :: nat] \<noteq> [] \<and> distinct [1, 2, 3 :: nat]
   \<and> handleUpDown (keyPress ''ArrowUp'') (Some 1) [1, 2, 3] 0 (Some (AutoSelectBool True))
       demo_state = demo_state
   \<and> handleUpDown (keyPress ''ArrowDown'') (Some 3) [1, 2, 3] 0 (Some (AutoSelectBool True))
       demo_state = demo_state
   \<and> handleEvents demo_document (keyPress ''ArrowUp'') [Some 100] 0 None demo_state
       = (None, demo_state)"
proof -
  have h: "[1, 2, 3 :: nat] \<noteq> []" by simp
  have d: "distinct [1, 2, 3 :: nat]" by simp
  note clamp = handleUpDown_boundary_clamp [OF h, where ci = 0
      and pol = "Some (AutoSelectBool True)" and s = demo_state]
  have a: "handleUpDown (keyPress ''ArrowUp'') (Some (hd [1, 2, 3])) [1, 2, 3] 0
             (Some (AutoSelectBool True)) demo_state = demo_state"
    by (rule clamp [THEN conjunct1, THEN mp]) (simp add: keyPress_def)
  have b: "handleUpDown (keyPress ''ArrowDown'') (Some (last [1, 2, 3])) [1, 2, 3] 0
             (Some (AutoSelectBool True)) demo_state = demo_state"
    by (rule clamp [THEN conjunct2, THEN mp]) (simp add: keyPress_def)
  have c: "handleEvents demo_document (keyPress ''ArrowUp'') [Some 100] 0 None demo_state
             = (None, demo_state)"
    by (simp add: demo_defs eval_defs)
  from h d a b c show ?thesis by simp
qed

subsection \<open>C8: Left and Right with a single container\<close>

text \<open>
  C8. With exactly one container, the Left and Right keys pass the recognised-key check and
  then do nothing: no focus call, no activation, no change of the container index, no
  suppression of the default handling. The call throws only where every recognised key
  throws, on a null active container or a selector expression that the host refuses, and
  then it has no effect either; otherwise it returns from the intra-container navigator,
  which is a no-op for these keys.
\<close>

theorem single_container_left_right:
  assumes "length cs = 1" and "key ev \<in> set [''ArrowLeft'', ''ArrowRight'']"
  shows "key ev \<in> set [''ArrowUp'', ''ArrowDown'', ''Tab'', ''ArrowLeft'', ''ArrowRight'']
       \<and> snd (handleEvents doc ev cs ci opts s) = s
       \<and> fst (handleEvents doc ev cs ci opts s)
           = (case container_at cs ci of
                None \<Rightarrow> Some TypeError
              | Some c \<Rightarrow>
                  (case querySelectorAll doc c (resolveSelectors opts) of
                     Inl err \<Rightarrow> Some err
                   | Inr els \<Rightarrow> None))
       \<and> handleUpDown ev act els ci pol s = s"
proof -
  from assms(1) have ne: "cs \<noteq> []" and single: "\<not> (1 < length cs \<and> switchKey ev opts)"
    by auto
  from assms(2)
  have k: "key ev \<in> set [''ArrowUp'', ''ArrowDown'', ''Tab'', ''ArrowLeft'', ''ArrowRight'']"
    by auto
  from assms(2) have "key ev \<notin> set [''ArrowUp'', ''ArrowDown'']"
    by auto
  then have noop: "\<And>act els pol. handleUpDown ev act els ci pol s = s"
    by (rule handleUpDown_other_key)
  have "handleEvents doc ev cs ci opts s
          = (case container_at cs ci of
               None \<Rightarrow> (Some TypeError, s)
             | Some c \<Rightarrow>
                 (case querySelectorAll doc c (resolveSelectors opts) of
                    Inl err \<Rightarrow> (Some err, s)
                  | Inr els \<Rightarrow> (None, s)))"
  proof (cases "container_at cs ci")
    case None
    with ne k show ?thesis by (simp add: handleEvents_null_container)
  next
    case (Some c)
    show ?thesis
    proof (cases "querySelectorAll doc c (resolveSelectors opts)")
      case (Inl err)
      with ne k Some show ?thesis by (simp add: handleEvents_query_throws)
    next
      case (Inr found)
      from handleEvents_routed [OF ne k Some Inr, of s, unfolded if_not_P [OF single]]
      show ?thesis using Some Inr by (simp add: noop)
    qed
  qed
  then have "snd (handleEvents doc ev cs ci opts s) = s"
    and "fst (handleEvents doc ev cs ci opts s)
           = (case container_at cs ci of
                None \<Rightarrow> Some TypeError
              | Some c \<Rightarrow>
                  (case querySelectorAll doc c (resolveSelectors opts) of
                     Inl err \<Rightarrow> Some err
                   | Inr els \<Rightarrow> None))"
    by (simp_all split: option.splits sum.splits)
  with k noop show ?thesis by simp
qed

text \<open>
  On the small page, with container 100 alone and node 1 focused: Left and Right return
  without an exception and without any effect.
\<close>

theorem single_container_left_right_witness:
  "length [Some (100 :: nat)] = 1
   \<and> key (keyPress ''ArrowLeft'') \<in> set [''ArrowLeft'', ''ArrowRight'']
   \<and> key (keyPress ''ArrowRight'') \<in> set [''ArrowLeft'', ''ArrowRight'']
   \<and> handleEvents demo_document (keyPress ''ArrowLeft'') [Some 100] 0 None demo_state
       = (None, demo_state)
   \<and> handleEvents demo_document (keyPress ''ArrowRight'') [Some 100] 0 None demo_state
       = (None, demo_state)"
proof -
  have h: "length [Some (100 :: nat)] = 1" by simp
  have l: "key (keyPress ''ArrowLeft'') \<in> set [''ArrowLeft'', ''ArrowRight'']"
    and r: "key (keyPress ''ArrowRight'') \<in> set [''ArrowLeft'', ''ArrowRight'']"
    by (simp_all add: keyPress_def)
  have q: "container_at [Some 100] 0 = Some (100 :: nat)"
    "querySelectorAll demo_document 100 (resolveSelectors None) = Inr [1, 2]"
    by (simp_all add: demo_defs eval_defs)
  from single_container_left_right [OF h l, of demo_document 0 None demo_state] q
  have a: "handleEvents demo_document (keyPress ''ArrowLeft'') [Some 100] 0 None demo_state
             = (None, demo_state)"
    by (simp add: prod_eq_iff)
  from single_container_left_right [OF h r, of demo_document 0 None demo_state] q
  have b: "handleEvents demo_document (keyPress ''ArrowRight'') [Some 100] 0 None demo_state
             = (None, demo_state)"
    by (simp add: prod_eq_iff)
  from h l r a b show ?thesis by blast
qed

subsection \<open>C9: the marker test is substring containment\<close>

text \<open>
  C9. The marker test of selection memory holds exactly when the marker name occurs
  somewhere in the element's whole class string, so it does not ask for a class token equal
  to the name. With the default marker \<^verbatim>\<open>selected\<close>, an element whose only class is
  \<^verbatim>\<open>unselected\<close> passes the test and is returned ahead of the first element of the
  sequence.
\<close>

theorem marker_is_substring:
  "(is_selected doc scn el \<longleftrightarrow>
      (\<exists>p q. className doc el
                = p @ (case scn of None \<Rightarrow> ''selected'' | Some n \<Rightarrow> n) @ q))
   \<and> (className doc a = ''item'' \<and> className doc b = ''unselected''
      \<longrightarrow> is_selected doc None b \<and> \<not> is_selected doc None a
          \<and> checkForPreviouslyFocusedElement doc [a, b] None = Some b)"
proof (intro conjI impI)
  show "is_selected doc scn el \<longleftrightarrow>
      (\<exists>p q. className doc el
                = p @ (case scn of None \<Rightarrow> ''selected'' | Some n \<Rightarrow> n) @ q)"
    by (cases scn) (simp_all add: is_selected_def str_includes_iff SELECTED_CLASSNAME_def)
next
  assume c: "className doc a = ''item'' \<and> className doc b = ''unselected''"
  then show "is_selected doc None b"
    by (simp add: is_selected_def SELECTED_CLASSNAME_def)
  from c show "\<not> is_selected doc None a"
    by (simp add: is_selected_def SELECTED_CLASSNAME_def)
  from c show "checkForPreviouslyFocusedElement doc [a, b] None = Some b"
    by (simp add: checkForPreviouslyFocusedElement_def is_selected_def SELECTED_CLASSNAME_def)
qed

text \<open>
  On the small page: node 2 of container 100 has the class \<^verbatim>\<open>unselected\<close>, and a
  switch into container 100 focuses it, not the first node 1.
\<close>

theorem marker_is_substring_witness:
  "className demo_document 1 = ''item'' \<and> className demo_document 2 = ''unselected''
   \<and> checkForPreviouslyFocusedElement demo_document [1, 2] None = Some 2
   \<and> handleEvents demo_document (keyPress ''ArrowLeft'') [Some 100, Some 101] 1 None
       (demo_state\<lparr>containerIndexState := 1\<rparr>)
     = (None, \<lparr>containerIndexState = 0, focusCalls = [2], clickCalls = [],
               preventDefaultCalls = 1\<rparr>)"
proof -
  have c: "className demo_document 1 = ''item'' \<and> className demo_document 2 = ''unselected''"
    by (simp add: demo_defs)
  from marker_is_substring [THEN conjunct2, THEN mp, OF c]
  have a: "checkForPreviouslyFocusedElement demo_document [1, 2] None = Some 2"
    by simp
  have b: "handleEvents demo_document (keyPress ''ArrowLeft'') [Some 100, Some 101] 1 None
       (demo_state\<lparr>containerIndexState := 1\<rparr>)
     = (None, \<lparr>containerIndexState = 0, focusCalls = [2], clickCalls = [],
               preventDefaultCalls = 1\<rparr>)"
    by (simp add: demo_defs eval_defs)
  from a b c show ?thesis by blast
qed


subsection \<open>C10: default handling is suppressed exactly when the focus moves\<close>

text \<open>
  C10. An event calls \<^verbatim>\<open>preventDefault\<close> if and only if it calls
  \<^verbatim>\<open>focus()\<close>: either it leaves the state as it was, or it makes one focus call and
  one call of preventDefault. On every degenerate path of the dispatch (no containers, a key
  that is not recognised, an absent candidate container, a candidate that yields no element
  even with the expression of every known kind, an absent neighbour) nothing changes: no
  call of preventDefault, the same container index, no focus call.
\<close>

theorem preventDefault_iff_focus:
  assumes "handleEvents doc ev cs ci opts s = (thr, s')"
  shows "(preventDefaultCalls s' \<noteq> preventDefaultCalls s \<longleftrightarrow> focusCalls s' \<noteq> focusCalls s)
       \<and> (s' = s
            \<or> (\<exists>e. focusCalls s' = focusCalls s @ [e]
                   \<and> preventDefaultCalls s' = preventDefaultCalls s + 1))
       \<and> (cs = [] \<longrightarrow> s' = s)
       \<and> (key ev \<notin> set [''ArrowUp'', ''ArrowDown'', ''Tab'', ''ArrowLeft'', ''ArrowRight'']
            \<longrightarrow> s' = s)
       \<and> (1 < length cs \<and> switchKey ev opts \<and> candidate ev cs ci = None \<longrightarrow> s' = s)
       \<and> (1 < length cs \<and> switchKey ev opts \<and> candidate ev cs ci = Some c
            \<and> querySelectorAll doc c (resolveSelectors opts) = Inr []
            \<and> querySelectorAll doc c (parseSelectors (Many allSelectors)) = Inr []
          \<longrightarrow> s' = s)
       \<and> (\<not> (1 < length cs \<and> switchKey ev opts) \<and> container_at cs ci = Some hc
            \<and> querySelectorAll doc hc (resolveSelectors opts) = Inr hels
            \<and> neighbour ev (activeElement doc) hels = None
          \<longrightarrow> s' = s)"
proof -
  note two = handleEvents_dichotomy [OF assms]
  have iff: "preventDefaultCalls s' \<noteq> preventDefaultCalls s \<longleftrightarrow> focusCalls s' \<noteq> focusCalls s"
    using two by auto
  have empty: "cs = [] \<longrightarrow> s' = s"
    using assms by (auto simp: handleEvents_empty)
  have unrecognized:
    "key ev \<notin> set [''ArrowUp'', ''ArrowDown'', ''Tab'', ''ArrowLeft'', ''ArrowRight'']
       \<longrightarrow> s' = s"
    using assms by (auto simp: handleEvents_unrecognized)
  have absent: "1 < length cs \<and> switchKey ev opts \<and> candidate ev cs ci = None \<longrightarrow> s' = s"
  proof
    assume "1 < length cs \<and> switchKey ev opts \<and> candidate ev cs ci = None"
    then show "s' = s"
      by (intro handleEvents_candidate_absent [OF assms]) simp_all
  qed
  have barren: "1 < length cs \<and> switchKey ev opts \<and> candidate ev cs ci = Some c
            \<and> querySelectorAll doc c (resolveSelectors opts) = Inr []
            \<and> querySelectorAll doc c (parseSelectors (Many allSelectors)) = Inr []
          \<longrightarrow> s' = s"
  proof
    assume "1 < length cs \<and> switchKey ev opts \<and> candidate ev cs ci = Some c
            \<and> querySelectorAll doc c (resolveSelectors opts) = Inr []
            \<and> querySelectorAll doc c (parseSelectors (Many allSelectors)) = Inr []"
    then show "s' = s"
      by (intro handleEvents_candidate_empty [OF assms, of c]) simp_all
  qed
  have edge: "\<not> (1 < length cs \<and> switchKey ev opts) \<and> container_at cs ci = Some hc
            \<and> querySelectorAll doc hc (resolveSelectors opts) = Inr hels
            \<and> neighbour ev (activeElement doc) hels = None
          \<longrightarrow> s' = s"
  proof
    assume "\<not> (1 < length cs \<and> switchKey ev opts) \<and> container_at cs ci = Some hc
            \<and> querySelectorAll doc hc (resolveSelectors opts) = Inr hels
            \<and> neighbour ev (activeElement doc) hels = None"
    then show "s' = s"
      by (intro handleEvents_neighbour_absent [OF assms, of hc hels]) simp_all
  qed
  from iff two empty unrecognized absent barren edge show ?thesis
    by (intro conjI)
qed

text \<open>
  On the small page, one event for each degenerate path, each without any effect, and the
  Down key from node 1, which focuses node 2 and suppresses the default handling once.
\<close>

theorem preventDefault_iff_focus_witness:
  "handleEvents demo_document (keyPress ''ArrowDown'') [] 0 None demo_state = (None, demo_state)
   \<and> handleEvents demo_document (keyPress ''Enter'') [Some 100, Some 101] 0 None demo_state
       = (None, demo_state)
   \<and> handleEvents demo_document (keyPress ''ArrowLeft'') [Some 100, Some 101] 0 None demo_state
       = (None, demo_state)
   \<and> handleEvents demo_document (keyPress ''ArrowRight'') [Some 100, Some 104] 0
       (Some (demo_options None ''.item'')) demo_state
       = (None, demo_state)
   \<and> handleEvents demo_document (keyPress ''ArrowUp'') [Some 100, Some 101] 0 None demo_state
       = (None, demo_state)
   \<and> handleEvents demo_document (keyPress ''ArrowDown'') [Some 100, Some 101] 0 None demo_state
       = (None, \<lparr>containerIndexState = 0, focusCalls = [2], clickCalls = [],
                 preventDefaultCalls = 1\<rparr>)
   \<and> preventDefaultCalls \<lparr>containerIndexState = 0, focusCalls = [2], clickCalls = [],
                 preventDefaultCalls = 1\<rparr> \<noteq> preventDefaultCalls demo_state"
proof -
  have h1: "handleEvents demo_document (keyPress ''ArrowDown'') [] 0 None demo_state
              = (None, demo_state)"
    by (simp add: demo_defs eval_defs)
  have h2: "handleEvents demo_document (keyPress ''Enter'') [Some 100, Some 101] 0 None
              demo_state = (None, demo_state)"
    by (simp add: demo_defs eval_defs)
  have h3: "handleEvents demo_document (keyPress ''ArrowLeft'') [Some 100, Some 101] 0 None
              demo_state = (None, demo_state)"
    by (simp add: demo_defs eval_defs)
  have h4: "handleEvents demo_document (keyPress ''ArrowRight'') [Some 100, Some 104] 0
              (Some (demo_options None ''.item'')) demo_state = (None, demo_state)"
    by (simp add: demo_defs eval_defs)
  have h5: "handleEvents demo_document (keyPress ''ArrowUp'') [Some 100, Some 101] 0 None
              demo_state = (None, demo_state)"
    by (simp add: demo_defs eval_defs)
  have h6: "handleEvents demo_document (keyPress ''ArrowDown'') [Some 100, Some 101] 0 None
              demo_state
            = (None, \<lparr>containerIndexState = 0, focusCalls = [2], clickCalls = [],
                      preventDefaultCalls = 1\<rparr>)"
    by (simp add: demo_defs eval_defs)
  have f: "focusCalls \<lparr>containerIndexState = 0, focusCalls = [2], clickCalls = [],
                 preventDefaultCalls = 1\<rparr> \<noteq> focusCalls demo_state"
    by (simp add: demo_state_def)
  from preventDefault_iff_focus [OF h6, THEN conjunct1] f
  have p: "preventDefaultCalls \<lparr>containerIndexState = 0, focusCalls = [2], clickCalls = [],
                 preventDefaultCalls = 1\<rparr> \<noteq> preventDefaultCalls demo_state"
    by blast
  from h1 h2 h3 h4 h5 h6 p show ?thesis
    by (intro conjI)
qed


end
